theory Spec2Isabelle
  imports Complex_Main "HOL-Library.Sublist"
begin

section \<open>Numbers\<close>

text \<open>
  The program computes on JavaScript numbers, which are binary64 floating point numbers.
  A number is modelled by the real number it denotes; \<open>NaN\<close> and the infinities are
  outside the model. Comparison is exact on floating point numbers, so is the sign of a
  difference, and so is the division by \<open>1024 ** 3\<close>, a power of two (short of underflow).
  An addition, a multiplication by 8 or a division by 1000000 is rounded to the nearest
  floating point number: see \<open>fl\<close> below.

  \<open>parseFloat(x.toFixed(1))\<close>: \<open>toFixed\<close> negates a negative argument, picks the integer
  \<open>n\<close> for which \<open>n / 10\<close> is closest to the argument, the larger one of two, and prints
  it with one decimal and the sign; \<open>parseFloat\<close> reads the decimal back. (From \<open>10^21\<close> on
  \<open>toFixed\<close> prints the number itself. A floating point number of that size is an integer,
  which the rounding below leaves as it is.)
\<close>

definition toFixed1 :: "real \<Rightarrow> real" where
  "toFixed1 x =
     (if x < 0 then - (real_of_int \<lfloor>(- x) * 10 + 1 / 2\<rfloor> / 10)
      else real_of_int \<lfloor>x * 10 + 1 / 2\<rfloor> / 10)"

text \<open>\<open>v || 0\<close> on a number that may be missing: a missing value and \<open>0\<close> are falsy.\<close>

definition or_zero :: "real option \<Rightarrow> real" where
  "or_zero v = (case v of None \<Rightarrow> 0 | Some x \<Rightarrow> (if x = 0 then 0 else x))"

section \<open>Binary floating point\<close>

text \<open>
  A binary64 number has a significand of 53 bits and an exponent from \<open>-1022\<close> to \<open>1023\<close>.
  The exponent of a number \<open>x\<close> from 1 on is the number of halvings that bring it below 2;
  the exponent of a smaller one is minus the number of doublings that bring it to 1,
  and \<open>-1022\<close> at the least (the subnormal numbers).
\<close>

fun exp_ge1 :: "nat \<Rightarrow> real \<Rightarrow> int" where
  "exp_ge1 0 x = 0"
| "exp_ge1 (Suc n) x = (if x < 2 then 0 else exp_ge1 n (x / 2) + 1)"

fun exp_lt1 :: "nat \<Rightarrow> real \<Rightarrow> int" where
  "exp_lt1 0 x = 0"
| "exp_lt1 (Suc n) x = (if 1 \<le> x then 0 else exp_lt1 n (x * 2) - 1)"

definition exponent :: "real \<Rightarrow> int" where
  "exponent x = (if 1 \<le> \<bar>x\<bar> then exp_ge1 1023 \<bar>x\<bar> else exp_lt1 1022 \<bar>x\<bar>)"

text \<open>The nearest integer, the even one of two.\<close>

definition round_even :: "real \<Rightarrow> int" where
  "round_even y =
     (let f = \<lfloor>y\<rfloor> in
      if y - real_of_int f < 1 / 2 then f
      else if 1 / 2 < y - real_of_int f then f + 1
      else if even f then f else f + 1)"

text \<open>
  The result of an arithmetic operation is its exact result rounded to the nearest
  multiple of \<open>2\<close> to the power of the exponent minus 52, the one with the even significand
  of two. (A result of \<open>2 ^ 1024\<close> or more is \<open>Infinity\<close> in the program; the model has no
  such number and rounds it like the others.)
\<close>

definition fl :: "real \<Rightarrow> real" where
  "fl x =
     (if x = 0 then 0
      else let q = 2 powi (exponent x - 52) in real_of_int (round_even (x / q)) * q)"

section \<open>Results of the metric source\<close>

text \<open>
  Only the fields the program reads are kept. A field whose name is a constant of HOL or
  is used by two shapes carries a prefix.
\<close>

record OsInfo =
  os_hostname :: string
  os_distro :: string
  os_release :: string
  os_kernel :: string

record NetworkInterface =
  internal :: bool
  ip4 :: string

text \<open>\<open>si.networkInterfaces()\<close> is typed as an array or a single object.\<close>

datatype NetInterfaces = IfaceArray "NetworkInterface list" | IfaceSingle NetworkInterface

record CurrentLoad =
  currentLoad :: real

record CpuTemperature =
  main :: "real option"

record Mem =
  mem_active :: real
  mem_total :: real

record FsSize =
  fs_used :: real
  fs_size :: real

record NetworkStats =
  rx_sec :: "real option"
  tx_sec :: "real option"

record Process =
  p_pid :: int
  p_name :: string
  p_user :: string
  p_cpu :: real
  p_mem :: real
  p_state :: string

record Processes =
  proc_list :: "Process list"

section \<open>Published payloads\<close>

record SystemStats =
  cpuUsage :: real
  cpuTemp :: real
  memoryUsed :: real
  memoryTotal :: real
  storageUsed :: real
  storageTotal :: real
  networkUp :: real
  networkDown :: real
  uptime :: real

record ProcessEntry =
  pe_pid :: int
  pe_name :: string
  pe_user :: string
  pe_cpu :: real
  pe_mem :: real
  pe_status :: string

record VmInfo =
  instanceId :: string
  vm_status :: string
  region :: string
  ip :: string
  os :: string
  kernel :: string

text \<open>The three events \<open>vm-info\<close>, \<open>stats\<close> and \<open>processes\<close> with their payloads.\<close>

datatype event = EvVmInfo VmInfo | EvStats SystemStats | EvProcesses "ProcessEntry list"

type_synonym sid = string

datatype effect =
    IoEmit event
  | SocketEmit sid event
  | ConsoleLog string
  | ConsoleError string

section \<open>Promises\<close>

text \<open>
  An awaited promise either rejects or fulfils with a value. The reason of a rejection
  is not kept: the program only logs it, and the console of the model keeps the message
  without the reason.
\<close>

datatype 'a settled = Rejected | Fulfilled 'a

datatype error = Rejection

text \<open>\<open>await Promise.all([...])\<close>: fulfils with all values, rejects when one rejects.\<close>

definition Promise_all2 :: "'a settled \<Rightarrow> 'b settled \<Rightarrow> error + ('a \<times> 'b)" where
  "Promise_all2 a b =
     (case a of Rejected \<Rightarrow> Inl Rejection | Fulfilled a' \<Rightarrow>
      (case b of Rejected \<Rightarrow> Inl Rejection | Fulfilled b' \<Rightarrow> Inr (a', b')))"

definition Promise_all6 ::
  "'a settled \<Rightarrow> 'b settled \<Rightarrow> 'c settled \<Rightarrow> 'd settled \<Rightarrow> 'e settled \<Rightarrow> 'f settled
     \<Rightarrow> error + ('a \<times> 'b \<times> 'c \<times> 'd \<times> 'e \<times> 'f)" where
  "Promise_all6 a b c d e f =
     (case a of Rejected \<Rightarrow> Inl Rejection | Fulfilled a' \<Rightarrow>
      (case b of Rejected \<Rightarrow> Inl Rejection | Fulfilled b' \<Rightarrow>
       (case c of Rejected \<Rightarrow> Inl Rejection | Fulfilled c' \<Rightarrow>
        (case d of Rejected \<Rightarrow> Inl Rejection | Fulfilled d' \<Rightarrow>
         (case e of Rejected \<Rightarrow> Inl Rejection | Fulfilled e' \<Rightarrow>
          (case f of Rejected \<Rightarrow> Inl Rejection | Fulfilled f' \<Rightarrow>
             Inr (a', b', c', d', e', f')))))))"

section \<open>Connection handler\<close>

text \<open>\<open>netInterfaces.find(i => !i.internal && i.ip4)\<close>, \<open>null\<close> when the result is no array.\<close>

definition mainInterface :: "NetInterfaces \<Rightarrow> NetworkInterface option" where
  "mainInterface netInterfaces =
     (case netInterfaces of
        IfaceArray ifs \<Rightarrow> find (\<lambda>i. \<not> internal i \<and> ip4 i \<noteq> []) ifs
      | IfaceSingle _ \<Rightarrow> None)"

text \<open>\<open>mainInterface?.ip4 || '127.0.0.1'\<close>: the empty string is falsy.\<close>

definition ip_or_loopback :: "NetworkInterface option \<Rightarrow> string" where
  "ip_or_loopback m =
     (case m of None \<Rightarrow> ''127.0.0.1''
      | Some i \<Rightarrow> (if ip4 i = [] then ''127.0.0.1'' else ip4 i))"

definition vm_info :: "OsInfo \<Rightarrow> NetInterfaces \<Rightarrow> VmInfo" where
  "vm_info osInfo netInterfaces =
     \<lparr> instanceId = os_hostname osInfo,
       vm_status = ''Online'',
       region = ''Local'',
       ip = ip_or_loopback (mainInterface netInterfaces),
       os = os_distro osInfo @ '' '' @ os_release osInfo,
       kernel = os_kernel osInfo \<rparr>"

text \<open>The \<open>try\<close> block of the handler, and the handler with its \<open>catch\<close>.\<close>

definition connection_try ::
  "sid \<Rightarrow> OsInfo settled \<Rightarrow> NetInterfaces settled \<Rightarrow> error + effect list" where
  "connection_try socket osInfoQ netInterfacesQ =
     (case Promise_all2 osInfoQ netInterfacesQ of
        Inl e \<Rightarrow> Inl e
      | Inr (osInfo, netInterfaces) \<Rightarrow>
          Inr [SocketEmit socket (EvVmInfo (vm_info osInfo netInterfaces))])"

definition connection ::
  "sid \<Rightarrow> OsInfo settled \<Rightarrow> NetInterfaces settled \<Rightarrow> effect list" where
  "connection socket osInfoQ netInterfacesQ =
     ConsoleLog (''Frontend connected: '' @ socket) #
     (case connection_try socket osInfoQ netInterfacesQ of
        Inl e \<Rightarrow> [ConsoleError ''Error fetching static info:'']
      | Inr effs \<Rightarrow> effs)"

section \<open>Aggregation of one tick\<close>

text \<open>
  \<open>fsSize.reduce((prev, current) => (prev.size > current.size) ? prev : current)\<close> on a
  non-empty array, \<open>{ used: 0, size: 0 }\<close> on the empty one.
\<close>

definition mainDrive :: "FsSize list \<Rightarrow> FsSize" where
  "mainDrive fsSize =
     (case fsSize of
        [] \<Rightarrow> \<lparr> fs_used = 0, fs_size = 0 \<rparr>
      | v # vs \<Rightarrow>
          foldl (\<lambda>prev current. if fs_size prev > fs_size current then prev else current) v vs)"

text \<open>
  \<open>networkStats.reduce((acc, iface) => acc + (iface.rx_sec || 0), 0)\<close>, in floating point
  addition from left to right.
\<close>

definition netRxSec :: "NetworkStats list \<Rightarrow> real" where
  "netRxSec networkStats =
     foldl (\<lambda>acc iface. fl (acc + or_zero (rx_sec iface))) 0 networkStats"

definition netTxSec :: "NetworkStats list \<Rightarrow> real" where
  "netTxSec networkStats =
     foldl (\<lambda>acc iface. fl (acc + or_zero (tx_sec iface))) 0 networkStats"

text \<open>The last argument is \<open>si.time().uptime\<close>, read synchronously.\<close>

definition stats ::
  "CurrentLoad \<Rightarrow> CpuTemperature \<Rightarrow> Mem \<Rightarrow> FsSize list \<Rightarrow> NetworkStats list \<Rightarrow> real
     \<Rightarrow> SystemStats" where
  "stats cpuLoad cpuTemperature memR fsSize networkStats up =
     \<lparr> cpuUsage = toFixed1 (currentLoad cpuLoad),
       cpuTemp = or_zero (main cpuTemperature),
       memoryUsed = toFixed1 (mem_active memR / 1024 ^ 3),
       memoryTotal = toFixed1 (mem_total memR / 1024 ^ 3),
       storageUsed = toFixed1 (fs_used (mainDrive fsSize) / 1024 ^ 3),
       storageTotal = toFixed1 (fs_size (mainDrive fsSize) / 1024 ^ 3),
       networkUp = toFixed1 (fl (fl (netTxSec networkStats * 8) / 1000000)),
       networkDown = toFixed1 (fl (fl (netRxSec networkStats * 8) / 1000000)),
       uptime = up \<rparr>"

text \<open>
  \<open>Array.prototype.sort(compare)\<close> is a stable sort: an element goes before another one
  when \<open>compare\<close> is negative, and elements that compare equal keep their order. It is
  modelled by insertion from the right, which places an element in front of the first
  one it does not have to follow.
\<close>

fun sort_insert :: "('a \<Rightarrow> 'a \<Rightarrow> real) \<Rightarrow> 'a \<Rightarrow> 'a list \<Rightarrow> 'a list" where
  "sort_insert compare x [] = [x]"
| "sort_insert compare x (y # ys) =
     (if compare x y \<le> 0 then x # y # ys else y # sort_insert compare x ys)"

definition array_sort :: "('a \<Rightarrow> 'a \<Rightarrow> real) \<Rightarrow> 'a list \<Rightarrow> 'a list" where
  "array_sort compare xs = foldr (sort_insert compare) xs []"

definition process_entry :: "Process \<Rightarrow> ProcessEntry" where
  "process_entry p =
     \<lparr> pe_pid = p_pid p,
       pe_name = p_name p,
       pe_user = p_user p,
       pe_cpu = toFixed1 (p_cpu p),
       pe_mem = toFixed1 (p_mem p),
       pe_status = (if p_state p = ''sleeping'' then ''Sleeping'' else ''Running'') \<rparr>"

text \<open>\<open>.sort((a, b) => b.cpu - a.cpu).slice(0, 5)\<close>, then \<open>.map(...)\<close>.\<close>

definition top5 :: "Process list \<Rightarrow> Process list" where
  "top5 ps = take 5 (array_sort (\<lambda>a b. p_cpu b - p_cpu a) ps)"

definition topProcesses :: "Processes \<Rightarrow> ProcessEntry list" where
  "topProcesses processes = map process_entry (top5 (proc_list processes))"

section \<open>The timer callback\<close>

definition tick_try ::
  "CurrentLoad settled \<Rightarrow> CpuTemperature settled \<Rightarrow> Mem settled \<Rightarrow> FsSize list settled
     \<Rightarrow> NetworkStats list settled \<Rightarrow> Processes settled \<Rightarrow> real \<Rightarrow> error + effect list" where
  "tick_try cpuLoadQ cpuTempQ memQ fsSizeQ networkStatsQ processesQ up =
     (case Promise_all6 cpuLoadQ cpuTempQ memQ fsSizeQ networkStatsQ processesQ of
        Inl e \<Rightarrow> Inl e
      | Inr (cpuLoad, cpuTemperature, memR, fsSize, networkStats, processes) \<Rightarrow>
          Inr [IoEmit (EvStats (stats cpuLoad cpuTemperature memR fsSize networkStats up)),
               IoEmit (EvProcesses (topProcesses processes))])"

definition tick ::
  "CurrentLoad settled \<Rightarrow> CpuTemperature settled \<Rightarrow> Mem settled \<Rightarrow> FsSize list settled
     \<Rightarrow> NetworkStats list settled \<Rightarrow> Processes settled \<Rightarrow> real \<Rightarrow> effect list" where
  "tick cpuLoadQ cpuTempQ memQ fsSizeQ networkStatsQ processesQ up =
     (case tick_try cpuLoadQ cpuTempQ memQ fsSizeQ networkStatsQ processesQ up of
        Inl e \<Rightarrow> [ConsoleError ''Error fetching stats:'']
      | Inr effs \<Rightarrow> effs)"

text \<open>The events an effect list publishes to all subscribers, in order.\<close>

fun broadcasts :: "effect list \<Rightarrow> event list" where
  "broadcasts [] = []"
| "broadcasts (IoEmit ev # effs) = ev # broadcasts effs"
| "broadcasts (_ # effs) = broadcasts effs"

section \<open>The server\<close>

text \<open>
  The state of the transport: the connected sockets, what each socket has received, and
  the console. \<open>io.emit\<close> delivers to every connected socket, \<open>socket.emit\<close> to one.
  A handler runs as one step.
\<close>

record Server =
  sockets :: "sid set"
  inbox :: "sid \<Rightarrow> event list"
  console :: "string list"

fun perform :: "Server \<Rightarrow> effect \<Rightarrow> Server" where
  "perform srv (IoEmit ev) =
     srv\<lparr>inbox := (\<lambda>s. if s \<in> sockets srv then inbox srv s @ [ev] else inbox srv s)\<rparr>"
| "perform srv (SocketEmit socket ev) =
     srv\<lparr>inbox := (inbox srv)(socket := inbox srv socket @ [ev])\<rparr>"
| "perform srv (ConsoleLog msg) = srv\<lparr>console := console srv @ [msg]\<rparr>"
| "perform srv (ConsoleError msg) = srv\<lparr>console := console srv @ [msg]\<rparr>"

text \<open>The outcomes of the six queries of one tick, with the uptime read in that tick.\<close>

type_synonym queries =
  "CurrentLoad settled \<times> CpuTemperature settled \<times> Mem settled \<times> FsSize list settled
     \<times> NetworkStats list settled \<times> Processes settled \<times> real"

datatype input =
    Connect sid "OsInfo settled" "NetInterfaces settled"
  | Disconnect sid
  | Tick queries

fun step :: "Server \<Rightarrow> input \<Rightarrow> Server" where
  "step srv (Connect socket osInfoQ netInterfacesQ) =
     foldl perform (srv\<lparr>sockets := insert socket (sockets srv)\<rparr>)
       (connection socket osInfoQ netInterfacesQ)"
| "step srv (Disconnect socket) =
     perform (srv\<lparr>sockets := sockets srv - {socket}\<rparr>) (ConsoleLog ''Client disconnected'')"
| "step srv (Tick (cpuLoadQ, cpuTempQ, memQ, fsSizeQ, networkStatsQ, processesQ, up)) =
     foldl perform srv (tick cpuLoadQ cpuTempQ memQ fsSizeQ networkStatsQ processesQ up)"

definition run :: "Server \<Rightarrow> input list \<Rightarrow> Server" where
  "run srv ins = foldl step srv ins"

text \<open>What one tick publishes to all subscribers.\<close>

definition tick_events :: "queries \<Rightarrow> event list" where
  "tick_events q =
     (case q of (cpuLoadQ, cpuTempQ, memQ, fsSizeQ, networkStatsQ, processesQ, up) \<Rightarrow>
        broadcasts (tick cpuLoadQ cpuTempQ memQ fsSizeQ networkStatsQ processesQ up))"

section \<open>Floating point on numerals\<close>

text \<open>The exponent of a given number is computed step by step.\<close>

lemma exp_ge1_numeral:
  "exp_ge1 (numeral k) x = (if x < 2 then 0 else exp_ge1 (pred_numeral k) (x / 2) + 1)"
  by (simp add: numeral_eq_Suc)

lemma exp_lt1_numeral:
  "exp_lt1 (numeral k) x = (if 1 \<le> x then 0 else exp_lt1 (pred_numeral k) (x * 2) - 1)"
  by (simp add: numeral_eq_Suc)

lemmas fl_eval = fl_def exponent_def exp_ge1_numeral exp_lt1_numeral round_even_def power_int_minus

lemma fl_zero: "fl 0 = 0"
  by (simp add: fl_def)

text \<open>
  Known values: one tenth, and the sum of one tenth and two tenths, which is
  \<open>0.30000000000000004\<close>; the number nearest to \<open>0.15\<close> lies below it, and small whole
  numbers are not rounded.
\<close>

lemma fl_tenth: "fl (1 / 10) = 3602879701896397 / 36028797018963968"
  by (simp add: fl_eval)

lemma fl_three_tenths: "fl (fl (1 / 10) + fl (2 / 10)) = 1351079888211149 / 4503599627370496"
  by (simp add: fl_eval)

lemma fl_fifteen_hundredths:
  "fl (15 / 100) = 5404319552844595 / 36028797018963968" "fl (15 / 100) < 15 / 100"
  by (simp_all add: fl_eval)

lemma fl_whole: "fl 18750 = 18750" "fl 150000 = 150000" "fl 6000000 = 6000000"
  by (simp_all add: fl_eval)

text \<open>
  In the normal range the exponent brackets the number between two powers of two, and
  the rounded result is at most half a unit in the last place away from the exact one.
\<close>

lemma round_even_nearest: "\<bar>real_of_int (round_even y) - y\<bar> \<le> 1 / 2"
proof -
  have "real_of_int \<lfloor>y\<rfloor> \<le> y" "y < real_of_int \<lfloor>y\<rfloor> + 1" by linarith+
  then show ?thesis by (auto simp add: round_even_def Let_def)
qed

lemma exp_ge1_bounds:
  "1 \<le> x \<Longrightarrow> x < 2 ^ Suc n \<Longrightarrow>
     0 \<le> exp_ge1 n x \<and> 2 powi (exp_ge1 n x) \<le> x \<and> x < 2 powi (exp_ge1 n x + 1)"
proof (induction n arbitrary: x)
  case 0
  then show ?case by simp
next
  case (Suc n)
  show ?case
  proof (cases "x < 2")
    case True
    then show ?thesis using Suc.prems by simp
  next
    case False
    define e where "e = exp_ge1 n (x / 2)"
    define P :: real where "P = 2 powi e"
    have h: "1 \<le> x / 2" "x / 2 < 2 ^ Suc n" using False Suc.prems by simp_all
    from Suc.IH[OF h] have e0: "0 \<le> e" and lo: "P \<le> x / 2"
      and hi: "x / 2 < 2 powi (e + 1)" by (simp_all add: e_def P_def)
    have p1: "(2::real) powi (e + 1) = 2 * P" by (simp add: power_int_add P_def)
    have p2: "(2::real) powi (e + 1 + 1) = 2 * (2 * P)"
      using power_int_add[of "2::real" "e + 1" 1] p1 by simp
    have r: "exp_ge1 (Suc n) x = e + 1" using False by (simp add: e_def)
    have "0 \<le> e + 1" using e0 by simp
    moreover have "2 powi (e + 1) \<le> x" unfolding p1 using lo by simp
    moreover have "x < 2 powi (e + 1 + 1)" unfolding p2 using hi p1 by simp
    ultimately show ?thesis unfolding r by blast
  qed
qed

lemma exp_lt1_bounds:
  "0 < x \<Longrightarrow> x < 1 \<Longrightarrow> 1 \<le> x * 2 ^ n \<Longrightarrow>
     exp_lt1 n x < 0 \<and> 2 powi (exp_lt1 n x) \<le> x \<and> x < 2 powi (exp_lt1 n x + 1)"
proof (induction n arbitrary: x)
  case 0
  then show ?case by simp
next
  case (Suc n)
  have r: "exp_lt1 (Suc n) x = exp_lt1 n (x * 2) - 1" using Suc.prems by simp
  show ?case
  proof (cases "1 \<le> x * 2")
    case True
    have "exp_lt1 n (x * 2) = 0" using True by (cases n) simp_all
    then have r': "exp_lt1 (Suc n) x = - 1" using r by simp
    have "(2::real) powi (- 1) = 1 / 2" by (simp add: power_int_minus)
    then show ?thesis unfolding r' using True Suc.prems by simp
  next
    case False
    define e where "e = exp_lt1 n (x * 2)"
    define P :: real where "P = 2 powi e"
    have h: "0 < x * 2" "x * 2 < 1" "1 \<le> x * 2 * 2 ^ n"
      using False Suc.prems by (simp_all add: mult.assoc)
    from Suc.IH[OF h] have e0: "e < 0" and lo: "P \<le> x * 2"
      and hi: "x * 2 < 2 powi (e + 1)" by (simp_all add: e_def P_def)
    have p1: "(2::real) powi (e + 1) = 2 * P" by (simp add: power_int_add P_def)
    have p0: "(2::real) powi (e - 1) = P / 2" by (simp add: power_int_diff P_def)
    have r': "exp_lt1 (Suc n) x = e - 1" using r by (simp add: e_def)
    have "e - 1 < 0" using e0 by simp
    moreover have "2 powi (e - 1) \<le> x" unfolding p0 using lo by simp
    moreover have "x < 2 powi (e - 1 + 1)" using hi p1 by (simp add: P_def)
    ultimately show ?thesis unfolding r' by blast
  qed
qed

lemma fl_nearest:
  "\<bar>fl x - x\<bar> \<le> 2 powi (exponent x - 52) / 2"
proof (cases "x = 0")
  case True
  then show ?thesis by (simp add: fl_def)
next
  case False
  define q :: real where "q = 2 powi (exponent x - 52)"
  define a where "a = real_of_int (round_even (x / q))"
  have q: "0 < q" unfolding q_def by simp
  have 1: "\<bar>a - x / q\<bar> \<le> 1 / 2" unfolding a_def by (rule round_even_nearest)
  have 2: "\<bar>a - x / q\<bar> * q \<le> 1 / 2 * q"
    using 1 q by (rule_tac mult_right_mono) simp_all
  have "(a - x / q) * q = a * q - x" using q by (simp add: field_simps)
  then have 3: "\<bar>a - x / q\<bar> * q = \<bar>a * q - x\<bar>" using q by (metis abs_mult abs_of_pos)
  have 4: "fl x = a * q" using False by (simp add: fl_def q_def a_def Let_def)
  have "\<bar>fl x - x\<bar> \<le> q / 2" unfolding 4 using 2 3 by simp
  then show ?thesis unfolding q_def .
qed


lemma exp_ge1_le: "exp_ge1 n x \<le> int n"
  by (induction n arbitrary: x) simp_all

lemma exp_lt1_ge: "- int n \<le> exp_lt1 n x"
proof (induction n arbitrary: x)
  case 0
  show ?case by simp
next
  case (Suc n)
  from Suc[of "x * 2"] show ?case by simp
qed

lemma powi_minus_le: "2 powi (- int n) \<le> y \<Longrightarrow> 1 \<le> y * 2 ^ n" for y :: real
proof -
  assume h: "2 powi (- int n) \<le> y"
  have "(2::real) powi (- int n) = 1 / 2 ^ n" by (simp add: power_int_minus divide_inverse)
  then have "1 / 2 ^ n \<le> y" using h by simp
  then show ?thesis by (simp add: field_simps)
qed

lemma exponent_normal:
  assumes "2 powi (- 1022) \<le> \<bar>x\<bar>" and "\<bar>x\<bar> < 2 powi 1024"
  shows "2 powi (exponent x) \<le> \<bar>x\<bar> \<and> \<bar>x\<bar> < 2 powi (exponent x + 1)
      \<and> - 1022 \<le> exponent x \<and> exponent x \<le> 1023"
proof (cases "1 \<le> \<bar>x\<bar>")
  case True
  have "(2::real) powi 1024 = 2 powi int (Suc 1023)" by (simp only: of_nat_Suc of_nat_numeral) simp
  also have "\<dots> = 2 ^ Suc 1023" by (rule power_int_of_nat)
  finally have "\<bar>x\<bar> < 2 ^ Suc 1023" using assms(2) by (simp only:)
  from exp_ge1_bounds[OF True this] have b: "0 \<le> exp_ge1 1023 \<bar>x\<bar>"
    "2 powi (exp_ge1 1023 \<bar>x\<bar>) \<le> \<bar>x\<bar>" "\<bar>x\<bar> < 2 powi (exp_ge1 1023 \<bar>x\<bar> + 1)"
    by blast+
  have e: "exponent x = exp_ge1 1023 \<bar>x\<bar>" using True by (simp only: exponent_def if_True)
  have u: "exp_ge1 1023 \<bar>x\<bar> \<le> 1023" using exp_ge1_le[of 1023 "\<bar>x\<bar>"] by (simp only: of_nat_numeral)
  have l: "- 1022 \<le> exp_ge1 1023 \<bar>x\<bar>" using b(1) by linarith
  show ?thesis unfolding e using b(2,3) l u by blast
next
  case False
  have "(2::real) powi (- 1022) = 2 powi (- int 1022)" by (simp only: of_nat_numeral)
  then have "2 powi (- int 1022) \<le> \<bar>x\<bar>" using assms(1) by (simp only:)
  then have m: "1 \<le> \<bar>x\<bar> * 2 ^ 1022" by (rule powi_minus_le)
  have pos: "0 < \<bar>x\<bar>"
  proof -
    have "(0::real) < 2 powi (- 1022)" by (rule zero_less_power_int) simp
    then show ?thesis using assms(1) by linarith
  qed
  have lt: "\<bar>x\<bar> < 1" using False by linarith
  from exp_lt1_bounds[OF pos lt m] have b: "exp_lt1 1022 \<bar>x\<bar> < 0"
    "2 powi (exp_lt1 1022 \<bar>x\<bar>) \<le> \<bar>x\<bar>" "\<bar>x\<bar> < 2 powi (exp_lt1 1022 \<bar>x\<bar> + 1)"
    by blast+
  have e: "exponent x = exp_lt1 1022 \<bar>x\<bar>" using False by (simp only: exponent_def if_False)
  have l: "- 1022 \<le> exp_lt1 1022 \<bar>x\<bar>" using exp_lt1_ge[of 1022 "\<bar>x\<bar>"] by (simp only: of_nat_numeral)
  have u: "exp_lt1 1022 \<bar>x\<bar> \<le> 1023" using b(1) by linarith
  show ?thesis unfolding e using b(2,3) l u by blast
qed

section \<open>Rounding\<close>

text \<open>The rounding is monotone, and it yields the nearest multiple of one tenth.\<close>

lemma toFixed1_mono: "x \<le> y \<Longrightarrow> toFixed1 x \<le> toFixed1 y"
proof -
  assume xy: "x \<le> y"
  show ?thesis
  proof (cases "x < 0")
    case xneg: True
    show ?thesis
    proof (cases "y < 0")
      case True
      have "\<lfloor>(- y) * 10 + 1 / 2\<rfloor> \<le> \<lfloor>(- x) * 10 + 1 / 2\<rfloor>"
        using xy by (intro floor_mono) simp
      then show ?thesis using xneg True by (simp add: toFixed1_def divide_right_mono)
    next
      case False
      have a: "0 \<le> \<lfloor>(- x) * 10 + 1 / 2\<rfloor>" using xneg by simp
      have b: "0 \<le> \<lfloor>y * 10 + 1 / 2\<rfloor>" using False by simp
      have "toFixed1 x \<le> 0" using xneg a by (simp add: toFixed1_def)
      moreover have "0 \<le> toFixed1 y" using False b by (simp add: toFixed1_def)
      ultimately show ?thesis by linarith
    qed
  next
    case False
    then have y0: "\<not> y < 0" using xy by linarith
    have "\<lfloor>x * 10 + 1 / 2\<rfloor> \<le> \<lfloor>y * 10 + 1 / 2\<rfloor>"
      using xy by (intro floor_mono) simp
    then show ?thesis using False y0 by (simp add: toFixed1_def divide_right_mono)
  qed
qed

lemma toFixed1_nearest:
  "\<exists>n. toFixed1 x = real_of_int n / 10 \<and> \<bar>toFixed1 x - x\<bar> \<le> 1 / 20"
proof (cases "x < 0")
  case True
  define y where "y = (- x) * 10 + 1 / 2"
  define n where "n = \<lfloor>y\<rfloor>"
  have a: "real_of_int n \<le> y" and b: "y < real_of_int n + 1" unfolding n_def by linarith+
  have t: "toFixed1 x = real_of_int (- n) / 10"
    using True by (simp add: toFixed1_def y_def n_def)
  have t': "toFixed1 x = - (real_of_int n / 10)" unfolding t by simp
  have "\<bar>toFixed1 x - x\<bar> \<le> 1 / 20" using a b t' y_def by linarith
  then show ?thesis using t by blast
next
  case False
  define y where "y = x * 10 + 1 / 2"
  define n where "n = \<lfloor>y\<rfloor>"
  have a: "real_of_int n \<le> y" and b: "y < real_of_int n + 1" unfolding n_def by linarith+
  have t: "toFixed1 x = real_of_int n / 10"
    using False by (simp add: toFixed1_def y_def n_def)
  have "\<bar>toFixed1 x - x\<bar> \<le> 1 / 20" using a b t y_def by linarith
  then show ?thesis using t by blast
qed

lemma toFixed1_zero: "toFixed1 0 = 0"
  by (simp add: toFixed1_def)

lemma or_zero_eq: "or_zero v = (case v of None \<Rightarrow> 0 | Some x \<Rightarrow> x)"
  by (simp add: or_zero_def split: option.splits)

section \<open>The reductions\<close>

lemma netRxSec_fold:
  "netRxSec ns
     = foldl (\<lambda>acc v. fl (acc + v)) 0 (map (\<lambda>i. case rx_sec i of None \<Rightarrow> 0 | Some v \<Rightarrow> v) ns)"
  by (simp add: netRxSec_def foldl_map or_zero_eq)

lemma netTxSec_fold:
  "netTxSec ns
     = foldl (\<lambda>acc v. fl (acc + v)) 0 (map (\<lambda>i. case tx_sec i of None \<Rightarrow> 0 | Some v \<Rightarrow> v) ns)"
  by (simp add: netTxSec_def foldl_map or_zero_eq)

text \<open>
  The reduction over the volumes returns an element of the array: nothing before it is
  larger, and everything after it is strictly smaller.
\<close>

lemma reduce_larger_split:
  fixes v :: FsSize
  defines "f \<equiv> (\<lambda>prev current. if fs_size prev > fs_size current then prev else current)"
  shows "\<exists>pre post. v # vs = pre @ foldl f v vs # post
     \<and> (\<forall>x\<in>set pre. fs_size x \<le> fs_size (foldl f v vs))
     \<and> (\<forall>x\<in>set post. fs_size x < fs_size (foldl f v vs))"
proof (induction vs rule: rev_induct)
  case Nil
  show ?case by (rule exI[of _ "[]"], rule exI[of _ "[]"]) simp
next
  case (snoc c vs)
  define r where "r = foldl f v vs"
  from snoc obtain pre post where d: "v # vs = pre @ r # post"
    and le: "\<forall>x\<in>set pre. fs_size x \<le> fs_size r"
    and lt: "\<forall>x\<in>set post. fs_size x < fs_size r" unfolding r_def by blast
  show ?case
  proof (cases "fs_size r > fs_size c")
    case True
    then have res: "foldl f v (vs @ [c]) = r" by (simp add: r_def f_def)
    have 1: "v # vs @ [c] = pre @ r # (post @ [c])" using d by simp
    have 2: "\<forall>x\<in>set (post @ [c]). fs_size x < fs_size r" using lt True by simp
    show ?thesis unfolding res
      by (rule exI[of _ pre], rule exI[of _ "post @ [c]"]) (use 1 2 le in blast)
  next
    case False
    then have res: "foldl f v (vs @ [c]) = c" by (simp add: r_def f_def)
    have 1: "v # vs @ [c] = (v # vs) @ c # []" by simp
    have mem: "set (v # vs) = set pre \<union> {r} \<union> set post" unfolding d by simp
    have 2: "\<forall>x\<in>set (v # vs). fs_size x \<le> fs_size c"
    proof
      fix x assume "x \<in> set (v # vs)"
      then have "x \<in> set pre \<or> x = r \<or> x \<in> set post" unfolding mem by blast
      then show "fs_size x \<le> fs_size c" using le lt False by fastforce
    qed
    show ?thesis unfolding res
      by (rule exI[of _ "v # vs"], rule exI[of _ "[]"]) (use 1 2 in simp)
  qed
qed

lemma mainDrive_split:
  "fsSize \<noteq> [] \<Longrightarrow> \<exists>pre post. fsSize = pre @ mainDrive fsSize # post
     \<and> (\<forall>x\<in>set pre. fs_size x \<le> fs_size (mainDrive fsSize))
     \<and> (\<forall>x\<in>set post. fs_size x < fs_size (mainDrive fsSize))"
  using reduce_larger_split by (cases fsSize) (simp_all add: mainDrive_def)

lemma mainDrive_mem: "fsSize \<noteq> [] \<Longrightarrow> mainDrive fsSize \<in> set fsSize"
  using mainDrive_split[of fsSize] by (metis in_set_conv_decomp)

section \<open>The sort\<close>

text \<open>With the comparison of the program, the sort is the insertion sort of the library on the negated key.\<close>

lemma array_sort_sort_key:
  "array_sort (\<lambda>a b. p_cpu b - p_cpu a) ps = sort_key (\<lambda>p. - p_cpu p) ps"
proof -
  have ins: "sort_insert (\<lambda>a b. p_cpu b - p_cpu a) x ys = insort_key (\<lambda>p. - p_cpu p) x ys" for x ys
    by (induction ys) simp_all
  have "foldr (sort_insert (\<lambda>a b. p_cpu b - p_cpu a)) ps [] = foldr (insort_key (\<lambda>p. - p_cpu p)) ps []"
    by (induction ps) (simp_all add: ins)
  then show ?thesis by (simp add: array_sort_def sort_key_def)
qed

lemma top5_sorted: "sorted_wrt (\<lambda>a b. p_cpu a \<ge> p_cpu b) (top5 ps)"
proof -
  have "sorted (map (\<lambda>p. - p_cpu p) (sort_key (\<lambda>p. - p_cpu p) ps))" by simp
  then have "sorted (take 5 (map (\<lambda>p. - p_cpu p) (sort_key (\<lambda>p. - p_cpu p) ps)))"
    by (rule sorted_wrt_take)
  then have "sorted (map (\<lambda>p. - p_cpu p) (top5 ps))"
    by (simp add: top5_def array_sort_sort_key take_map)
  then show ?thesis by (simp add: sorted_map)
qed

lemma top5_stable:
  "prefix (filter (\<lambda>p. p_cpu p = k) (top5 ps)) (filter (\<lambda>p. p_cpu p = k) ps)"
proof -
  have "prefix (filter (\<lambda>p. p_cpu p = k) (top5 ps))
          (filter (\<lambda>p. p_cpu p = k) (sort_key (\<lambda>p. - p_cpu p) ps))"
    unfolding top5_def array_sort_sort_key by (intro filter_mono_prefix take_is_prefix)
  moreover have "filter (\<lambda>p. p_cpu p = k) (sort_key (\<lambda>p. - p_cpu p) ps)
           = filter (\<lambda>p. p_cpu p = k) ps"
    using sort_key_stable[of "\<lambda>p. - p_cpu p" "- k" ps] by simp
  ultimately show ?thesis by simp
qed

lemma topProcesses_sorted: "sorted_wrt (\<lambda>a b. pe_cpu a \<ge> pe_cpu b) (topProcesses ps)"
proof -
  have "sorted_wrt (\<lambda>a b. toFixed1 (p_cpu a) \<ge> toFixed1 (p_cpu b)) (top5 (proc_list ps))"
    by (rule sorted_wrt_mono_rel[OF _ top5_sorted]) (simp add: toFixed1_mono)
  then show ?thesis by (simp add: topProcesses_def sorted_wrt_map process_entry_def)
qed

section \<open>One tick\<close>

lemma tick_fulfilled:
  "tick (Fulfilled cl) (Fulfilled ct) (Fulfilled m) (Fulfilled fs) (Fulfilled ns) (Fulfilled ps) up =
     [IoEmit (EvStats (stats cl ct m fs ns up)), IoEmit (EvProcesses (topProcesses ps))]"
  by (simp add: tick_def tick_try_def Promise_all6_def)

lemma tick_rejected:
  "a = Rejected \<or> b = Rejected \<or> c = Rejected \<or> d = Rejected \<or> e = Rejected \<or> f = Rejected
     \<Longrightarrow> tick a b c d e f up = [ConsoleError ''Error fetching stats:'']"
  by (auto simp add: tick_def tick_try_def Promise_all6_def split: settled.splits)

lemma tick_events_fulfilled:
  "tick_events (Fulfilled cl, Fulfilled ct, Fulfilled m, Fulfilled fs, Fulfilled ns, Fulfilled ps, up)
     = [EvStats (stats cl ct m fs ns up), EvProcesses (topProcesses ps)]"
  by (simp add: tick_events_def tick_fulfilled)

lemma tick_events_rejected:
  "a = Rejected \<or> b = Rejected \<or> c = Rejected \<or> d = Rejected \<or> e = Rejected \<or> f = Rejected
     \<Longrightarrow> tick_events (a, b, c, d, e, f, up) = []"
  by (simp add: tick_events_def tick_rejected)

section \<open>Steps of the server\<close>

lemma foldl_perform_sockets: "sockets (foldl perform srv effs) = sockets srv"
proof (induction effs arbitrary: srv)
  case Nil show ?case by simp
next
  case (Cons e effs)
  have "sockets (perform srv e) = sockets srv" by (cases e) simp_all
  then show ?case using Cons by simp
qed

lemma step_tick_sockets: "sockets (step srv (Tick q)) = sockets srv"
  by (cases q) (simp add: foldl_perform_sockets)

lemma step_tick_inbox:
  "inbox (step srv (Tick q)) s =
     (if s \<in> sockets srv then inbox srv s @ tick_events q else inbox srv s)"
proof -
  obtain a b c d e f up where q: "q = (a, b, c, d, e, f, up)" by (cases q)
  show ?thesis
    unfolding q
    by (simp add: tick_events_def tick_def tick_try_def Promise_all6_def
              split: settled.splits)
qed

lemma run_ticks_sockets: "sockets (run srv (map Tick qs)) = sockets srv"
  unfolding run_def by (induction qs arbitrary: srv) (simp_all add: step_tick_sockets del: step.simps)

lemma run_ticks_inbox:
  "s \<in> sockets srv \<Longrightarrow>
     inbox (run srv (map Tick qs)) s = inbox srv s @ concat (map tick_events qs)"
  unfolding run_def
proof (induction qs arbitrary: srv)
  case Nil show ?case by simp
next
  case (Cons q qs)
  have "s \<in> sockets (step srv (Tick q))" using Cons.prems by (simp add: step_tick_sockets del: step.simps)
  from Cons.IH[OF this] show ?case using Cons.prems
    by (simp add: step_tick_inbox del: step.simps)
qed

lemma step_tick_rejected:
  assumes "a = Rejected \<or> b = Rejected \<or> c = Rejected \<or> d = Rejected \<or> e = Rejected \<or> f = Rejected"
  shows "step srv (Tick (a, b, c, d, e, f, up)) = srv\<lparr>console := console srv @ [''Error fetching stats:'']\<rparr>"
  by (simp add: tick_rejected[OF assms])

text \<open>Two servers that differ in the console only stay so.\<close>

lemma perform_console_irrelevant:
  "sockets a = sockets b \<Longrightarrow> inbox a = inbox b \<Longrightarrow>
     sockets (perform a e) = sockets (perform b e) \<and> inbox (perform a e) = inbox (perform b e)"
  by (cases e) (auto simp add: fun_eq_iff)

lemma foldl_perform_console_irrelevant:
  "sockets a = sockets b \<Longrightarrow> inbox a = inbox b \<Longrightarrow>
     sockets (foldl perform a effs) = sockets (foldl perform b effs)
       \<and> inbox (foldl perform a effs) = inbox (foldl perform b effs)"
proof (induction effs arbitrary: a b)
  case Nil
  then show ?case by simp
next
  case (Cons e effs)
  from perform_console_irrelevant[OF Cons.prems, of e]
  have "sockets (perform a e) = sockets (perform b e)"
    and "inbox (perform a e) = inbox (perform b e)" by simp_all
  from Cons.IH[OF this] show ?case by simp
qed

lemma step_console_irrelevant:
  "sockets a = sockets b \<Longrightarrow> inbox a = inbox b \<Longrightarrow>
     sockets (step a i) = sockets (step b i) \<and> inbox (step a i) = inbox (step b i)"
proof (cases i)
  case (Connect sock oq nq)
  assume h: "sockets a = sockets b" "inbox a = inbox b"
  show ?thesis unfolding Connect step.simps
    by (rule foldl_perform_console_irrelevant) (simp_all add: h)
next
  case (Disconnect sock)
  assume h: "sockets a = sockets b" "inbox a = inbox b"
  show ?thesis unfolding Disconnect by (simp add: h)
next
  case (Tick q)
  assume h: "sockets a = sockets b" "inbox a = inbox b"
  obtain c1 c2 c3 c4 c5 c6 up where q: "q = (c1, c2, c3, c4, c5, c6, up)" by (cases q)
  show ?thesis unfolding Tick q step.simps
    by (rule foldl_perform_console_irrelevant) (simp_all add: h)
qed

lemma run_console_irrelevant:
  "sockets a = sockets b \<Longrightarrow> inbox a = inbox b \<Longrightarrow>
     sockets (run a ins) = sockets (run b ins) \<and> inbox (run a ins) = inbox (run b ins)"
  unfolding run_def
proof (induction ins arbitrary: a b)
  case Nil
  then show ?case by simp
next
  case (Cons i ins)
  from step_console_irrelevant[OF Cons.prems, of i]
  have "sockets (step a i) = sockets (step b i)"
    and "inbox (step a i) = inbox (step b i)" by simp_all
  from Cons.IH[OF this] show ?case by simp
qed

lemma find_first:
  "\<forall>j\<in>set pre. \<not> P j \<Longrightarrow> P i \<Longrightarrow> find P (pre @ i # post) = Some i"
  by (induction pre) simp_all

section \<open>The connection handler\<close>

lemma connection_fulfilled:
  "connection sock (Fulfilled oi) (Fulfilled n)
     = [ConsoleLog (''Frontend connected: '' @ sock), SocketEmit sock (EvVmInfo (vm_info oi n))]"
  by (simp add: connection_def connection_try_def Promise_all2_def)

lemma connection_rejected:
  "osq = Rejected \<or> nq = Rejected \<Longrightarrow>
     connection sock osq nq
       = [ConsoleLog (''Frontend connected: '' @ sock), ConsoleError ''Error fetching static info:'']"
  by (auto simp add: connection_def connection_try_def Promise_all2_def split: settled.splits)

text \<open>A result that is no array has no interface to offer, and the loopback address is sent.\<close>

lemma vm_info_single: "ip (vm_info oi (IfaceSingle i)) = ''127.0.0.1''"
  by (simp add: vm_info_def mainInterface_def ip_or_loopback_def)

section \<open>The claims\<close>

text \<open>
  Claim C1, as stated: when exactly one query of a tick rejects and the others succeed,
  a snapshot is still published, with the default of the failed category in it.
  The program awaits all six queries with one \<open>Promise.all\<close> inside one \<open>try\<close>: here the
  temperature query alone rejects, and the tick publishes no event.
\<close>

theorem single_rejection_counterexample:
  "broadcasts (tick (Fulfilled \<lparr>currentLoad = 12\<rparr>) Rejected
      (Fulfilled \<lparr>mem_active = 1073741824, mem_total = 2147483648\<rparr>)
      (Fulfilled []) (Fulfilled []) (Fulfilled \<lparr>proc_list = []\<rparr>) 100) = []"
  by (simp add: tick_def tick_try_def Promise_all6_def)

text \<open>
  Claim C1, amended: when a query of a tick rejects, the whole cycle is skipped. The
  callback only logs the failure, it publishes neither a \<open>stats\<close> nor a \<open>processes\<close> event,
  and no subscriber receives anything for that tick.
\<close>

theorem rejection_skips_tick:
  "a = Rejected \<or> b = Rejected \<or> c = Rejected \<or> d = Rejected \<or> e = Rejected \<or> f = Rejected
   \<Longrightarrow> tick a b c d e f up = [ConsoleError ''Error fetching stats:'']
     \<and> broadcasts (tick a b c d e f up) = []
     \<and> inbox (step srv (Tick (a, b, c, d, e, f, up))) = inbox srv
     \<and> sockets (step srv (Tick (a, b, c, d, e, f, up))) = sockets srv"
proof -
  assume h: "a = Rejected \<or> b = Rejected \<or> c = Rejected \<or> d = Rejected \<or> e = Rejected \<or> f = Rejected"
  have t: "tick a b c d e f up = [ConsoleError ''Error fetching stats:'']"
    by (rule tick_rejected[OF h])
  show ?thesis unfolding step_tick_rejected[OF h] t by simp
qed

theorem rejection_skips_tick_witness:
  "tick (Fulfilled \<lparr>currentLoad = 12\<rparr>) (Fulfilled \<lparr>main = Some 40\<rparr>)
      (Fulfilled \<lparr>mem_active = 1, mem_total = 2\<rparr>)
      Rejected (Fulfilled []) (Fulfilled \<lparr>proc_list = []\<rparr>) 7
     = [ConsoleError ''Error fetching stats:'']
   \<and> inbox (step \<lparr>sockets = {''a''}, inbox = (\<lambda>_. []), console = []\<rparr>
        (Tick (Fulfilled \<lparr>currentLoad = 12\<rparr>, Fulfilled \<lparr>main = Some 40\<rparr>,
           Fulfilled \<lparr>mem_active = 1, mem_total = 2\<rparr>,
           Rejected, Fulfilled [], Fulfilled \<lparr>proc_list = []\<rparr>, 7))) ''a'' = []"
  using rejection_skips_tick[where d = "Rejected :: FsSize list settled"
      and a = "Fulfilled \<lparr>currentLoad = 12\<rparr>" and b = "Fulfilled \<lparr>main = Some 40\<rparr>"
      and c = "Fulfilled \<lparr>mem_active = 1, mem_total = 2\<rparr>"
      and e = "Fulfilled ([] :: NetworkStats list)" and f = "Fulfilled \<lparr>proc_list = []\<rparr>" and up = 7
      and srv = "\<lparr>sockets = {''a''}, inbox = (\<lambda>_. []), console = []\<rparr>"]
  by simp

text \<open>
  Claim C2, as stated: among volumes of equal largest size the first one is selected.
  The reduction keeps \<open>prev\<close> only when it is strictly larger, so of two volumes of equal
  size the second is selected: the snapshot reports 2 GiB used, not 1 GiB.
\<close>

theorem mainDrive_tie_counterexample:
  "mainDrive [\<lparr>fs_used = 1073741824, fs_size = 107374182400\<rparr>,
              \<lparr>fs_used = 2147483648, fs_size = 107374182400\<rparr>]
     = \<lparr>fs_used = 2147483648, fs_size = 107374182400\<rparr>
   \<and> storageUsed (stats \<lparr>currentLoad = 0\<rparr> \<lparr>main = None\<rparr> \<lparr>mem_active = 0, mem_total = 0\<rparr>
        [\<lparr>fs_used = 1073741824, fs_size = 107374182400\<rparr>,
         \<lparr>fs_used = 2147483648, fs_size = 107374182400\<rparr>] [] 0) = 2"
  by (simp add: mainDrive_def stats_def toFixed1_def)

text \<open>
  Claim C2, amended: for a non-empty list of volumes the storage figures are those of the
  single volume of largest size, the last one encountered among volumes of that size;
  for the empty list they are \<open>used = 0\<close> and \<open>total = 0\<close>. Of the two volumes of sizes
  100 and 500 the second is selected, not their sum.
\<close>

theorem mainDrive_largest_last:
  "mainDrive [] = \<lparr>fs_used = 0, fs_size = 0\<rparr>
   \<and> storageUsed (stats cl ct m [] ns up) = 0
   \<and> storageTotal (stats cl ct m [] ns up) = 0
   \<and> (fsSize \<noteq> [] \<longrightarrow>
        (\<exists>pre post. fsSize = pre @ mainDrive fsSize # post
           \<and> (\<forall>v\<in>set pre. fs_size v \<le> fs_size (mainDrive fsSize))
           \<and> (\<forall>v\<in>set post. fs_size v < fs_size (mainDrive fsSize))))
   \<and> storageUsed (stats cl ct m fsSize ns up) = toFixed1 (fs_used (mainDrive fsSize) / 1024 ^ 3)
   \<and> storageTotal (stats cl ct m fsSize ns up) = toFixed1 (fs_size (mainDrive fsSize) / 1024 ^ 3)
   \<and> mainDrive [\<lparr>fs_used = 10, fs_size = 100\<rparr>, \<lparr>fs_used = 5, fs_size = 500\<rparr>]
        = \<lparr>fs_used = 5, fs_size = 500\<rparr>"
proof -
  have 1: "mainDrive [] = \<lparr>fs_used = 0, fs_size = 0\<rparr>" by (simp add: mainDrive_def)
  have 2: "storageUsed (stats cl ct m [] ns up) = 0" "storageTotal (stats cl ct m [] ns up) = 0"
    by (simp_all add: stats_def 1 toFixed1_zero)
  have 3: "fsSize \<noteq> [] \<longrightarrow>
        (\<exists>pre post. fsSize = pre @ mainDrive fsSize # post
           \<and> (\<forall>v\<in>set pre. fs_size v \<le> fs_size (mainDrive fsSize))
           \<and> (\<forall>v\<in>set post. fs_size v < fs_size (mainDrive fsSize)))"
    using mainDrive_split by blast
  have 4: "storageUsed (stats cl ct m fsSize ns up) = toFixed1 (fs_used (mainDrive fsSize) / 1024 ^ 3)"
    "storageTotal (stats cl ct m fsSize ns up) = toFixed1 (fs_size (mainDrive fsSize) / 1024 ^ 3)"
    by (simp_all add: stats_def)
  have 5: "mainDrive [\<lparr>fs_used = 10, fs_size = 100\<rparr>, \<lparr>fs_used = 5, fs_size = 500\<rparr>]
        = \<lparr>fs_used = 5, fs_size = 500\<rparr>" by (simp add: mainDrive_def)
  show ?thesis using 1 2 3 4 5 by blast
qed

theorem mainDrive_largest_last_witness:
  "[\<lparr>fs_used = 1, fs_size = 70\<rparr>, \<lparr>fs_used = 2, fs_size = 90\<rparr>, \<lparr>fs_used = 3, fs_size = 90\<rparr>,
    \<lparr>fs_used = 4, fs_size = 80\<rparr>] \<noteq> []
   \<and> (\<exists>pre post.
        [\<lparr>fs_used = 1, fs_size = 70\<rparr>, \<lparr>fs_used = 2, fs_size = 90\<rparr>, \<lparr>fs_used = 3, fs_size = 90\<rparr>,
         \<lparr>fs_used = 4, fs_size = 80\<rparr>] = pre @ \<lparr>fs_used = 3, fs_size = 90\<rparr> # post
        \<and> (\<forall>v\<in>set pre. fs_size v \<le> 90) \<and> (\<forall>v\<in>set post. fs_size v < 90))"
  using mainDrive_largest_last[of "\<lparr>currentLoad = 0\<rparr>" "\<lparr>main = None\<rparr>" "\<lparr>mem_active = 0, mem_total = 0\<rparr>" "[]" 0
      "[\<lparr>fs_used = 1, fs_size = 70\<rparr>, \<lparr>fs_used = 2, fs_size = 90\<rparr>, \<lparr>fs_used = 3, fs_size = 90\<rparr>,
        \<lparr>fs_used = 4, fs_size = 80\<rparr>]"]
  by (simp add: mainDrive_def)

text \<open>
  Claim C3, as stated: published entries with equal \<open>cpuPercent\<close> keep the order of the
  source list. The sort runs on the unrounded \<open>cpu\<close> and the rounding comes after it:
  the processes 1 and 2 with \<open>cpu\<close> 1.01 and 1.04 are both published with 1.0, process 2
  first.
\<close>

theorem topProcesses_rounded_tie_counterexample:
  "map pe_pid (topProcesses \<lparr>proc_list =
      [\<lparr>p_pid = 1, p_name = ''a'', p_user = ''u'', p_cpu = 101 / 100, p_mem = 0, p_state = ''running''\<rparr>,
       \<lparr>p_pid = 2, p_name = ''b'', p_user = ''u'', p_cpu = 104 / 100, p_mem = 0, p_state = ''running''\<rparr>]\<rparr>)
     = [2, 1]
   \<and> map pe_cpu (topProcesses \<lparr>proc_list =
      [\<lparr>p_pid = 1, p_name = ''a'', p_user = ''u'', p_cpu = 101 / 100, p_mem = 0, p_state = ''running''\<rparr>,
       \<lparr>p_pid = 2, p_name = ''b'', p_user = ''u'', p_cpu = 104 / 100, p_mem = 0, p_state = ''running''\<rparr>]\<rparr>)
     = [1, 1]"
  by (simp add: topProcesses_def top5_def array_sort_def process_entry_def toFixed1_def)

text \<open>
  Claim C3, amended: the published list has at most 5 entries, its \<open>cpuPercent\<close> values
  are non-increasing, and it is the image of the first five processes in a stable
  descending sort on the unrounded \<open>cpu\<close>: these are non-increasing in \<open>cpu\<close>, and the
  ones with one and the same unrounded \<open>cpu\<close> are, in the order of the source list, the
  first processes of the source list with that \<open>cpu\<close>.
\<close>

theorem topProcesses_top5_sorted_stable:
  "length (topProcesses ps) \<le> 5
   \<and> sorted_wrt (\<lambda>a b. pe_cpu a \<ge> pe_cpu b) (topProcesses ps)
   \<and> topProcesses ps = map process_entry (top5 (proc_list ps))
   \<and> sorted_wrt (\<lambda>a b. p_cpu a \<ge> p_cpu b) (top5 (proc_list ps))
   \<and> (\<forall>k. prefix (filter (\<lambda>p. p_cpu p = k) (top5 (proc_list ps)))
                   (filter (\<lambda>p. p_cpu p = k) (proc_list ps)))"
proof -
  have 1: "length (topProcesses ps) \<le> 5" by (simp add: topProcesses_def top5_def)
  have 2: "topProcesses ps = map process_entry (top5 (proc_list ps))" by (simp add: topProcesses_def)
  show ?thesis using 1 2 topProcesses_sorted top5_sorted top5_stable by blast
qed

theorem topProcesses_top5_sorted_stable_witness:
  "map pe_pid (topProcesses \<lparr>proc_list =
      [\<lparr>p_pid = 1, p_name = ''a'', p_user = ''u'', p_cpu = 3, p_mem = 1, p_state = ''sleeping''\<rparr>,
       \<lparr>p_pid = 2, p_name = ''b'', p_user = ''u'', p_cpu = 9, p_mem = 1, p_state = ''running''\<rparr>,
       \<lparr>p_pid = 3, p_name = ''c'', p_user = ''u'', p_cpu = 3, p_mem = 1, p_state = ''sleeping''\<rparr>,
       \<lparr>p_pid = 4, p_name = ''d'', p_user = ''u'', p_cpu = 7, p_mem = 1, p_state = ''running''\<rparr>,
       \<lparr>p_pid = 5, p_name = ''e'', p_user = ''u'', p_cpu = 9, p_mem = 1, p_state = ''running''\<rparr>,
       \<lparr>p_pid = 6, p_name = ''f'', p_user = ''u'', p_cpu = 1, p_mem = 1, p_state = ''sleeping''\<rparr>,
       \<lparr>p_pid = 7, p_name = ''g'', p_user = ''u'', p_cpu = 3, p_mem = 1, p_state = ''blocked''\<rparr>]\<rparr>)
     = [2, 5, 4, 1, 3]
   \<and> map pe_status (topProcesses \<lparr>proc_list =
      [\<lparr>p_pid = 1, p_name = ''a'', p_user = ''u'', p_cpu = 3, p_mem = 1, p_state = ''sleeping''\<rparr>,
       \<lparr>p_pid = 2, p_name = ''b'', p_user = ''u'', p_cpu = 9, p_mem = 1, p_state = ''running''\<rparr>,
       \<lparr>p_pid = 3, p_name = ''c'', p_user = ''u'', p_cpu = 3, p_mem = 1, p_state = ''sleeping''\<rparr>,
       \<lparr>p_pid = 4, p_name = ''d'', p_user = ''u'', p_cpu = 7, p_mem = 1, p_state = ''running''\<rparr>,
       \<lparr>p_pid = 5, p_name = ''e'', p_user = ''u'', p_cpu = 9, p_mem = 1, p_state = ''running''\<rparr>,
       \<lparr>p_pid = 6, p_name = ''f'', p_user = ''u'', p_cpu = 1, p_mem = 1, p_state = ''sleeping''\<rparr>,
       \<lparr>p_pid = 7, p_name = ''g'', p_user = ''u'', p_cpu = 3, p_mem = 1, p_state = ''blocked''\<rparr>]\<rparr>)
     = [''Running'', ''Running'', ''Running'', ''Sleeping'', ''Sleeping'']"
  using topProcesses_top5_sorted_stable[of "\<lparr>proc_list =
      [\<lparr>p_pid = 1, p_name = ''a'', p_user = ''u'', p_cpu = 3, p_mem = 1, p_state = ''sleeping''\<rparr>,
       \<lparr>p_pid = 2, p_name = ''b'', p_user = ''u'', p_cpu = 9, p_mem = 1, p_state = ''running''\<rparr>,
       \<lparr>p_pid = 3, p_name = ''c'', p_user = ''u'', p_cpu = 3, p_mem = 1, p_state = ''sleeping''\<rparr>,
       \<lparr>p_pid = 4, p_name = ''d'', p_user = ''u'', p_cpu = 7, p_mem = 1, p_state = ''running''\<rparr>,
       \<lparr>p_pid = 5, p_name = ''e'', p_user = ''u'', p_cpu = 9, p_mem = 1, p_state = ''running''\<rparr>,
       \<lparr>p_pid = 6, p_name = ''f'', p_user = ''u'', p_cpu = 1, p_mem = 1, p_state = ''sleeping''\<rparr>,
       \<lparr>p_pid = 7, p_name = ''g'', p_user = ''u'', p_cpu = 3, p_mem = 1, p_state = ''blocked''\<rparr>]\<rparr>"]
  by (simp add: topProcesses_def top5_def array_sort_def process_entry_def)

text \<open>
  Claim C4, as stated: the published \<open>networkDown\<close> (\<open>networkUp\<close>) is the sum of \<open>rx_sec\<close>
  (\<open>tx_sec\<close>) times 8, divided by 1000000 and rounded to one decimal. The program divides in
  floating point before it rounds. For the rates 12500 and 6250 the quotient is 0.15, which
  rounds to 0.2, but the floating point number nearest to 0.15 lies below it and the program
  publishes 0.1; likewise it publishes 0.3 for the rate 43750, whose quotient 0.35 rounds
  to 0.4.
\<close>

theorem network_totals_exact_counterexample:
  "networkDown (stats \<lparr>currentLoad = 0\<rparr> \<lparr>main = None\<rparr> \<lparr>mem_active = 0, mem_total = 0\<rparr> []
      [\<lparr>rx_sec = Some 12500, tx_sec = Some 43750\<rparr>, \<lparr>rx_sec = Some 6250, tx_sec = None\<rparr>] 0)
     = 1 / 10
   \<and> toFixed1 ((12500 + 6250) * 8 / 1000000) = 2 / 10
   \<and> networkUp (stats \<lparr>currentLoad = 0\<rparr> \<lparr>main = None\<rparr> \<lparr>mem_active = 0, mem_total = 0\<rparr> []
      [\<lparr>rx_sec = Some 12500, tx_sec = Some 43750\<rparr>, \<lparr>rx_sec = Some 6250, tx_sec = None\<rparr>] 0)
     = 3 / 10
   \<and> toFixed1 ((43750 + 0) * 8 / 1000000) = 4 / 10"
  by (simp add: stats_def netRxSec_def netTxSec_def or_zero_def fl_eval toFixed1_def)

text \<open>
  Claim C4, amended: when every query succeeds, the tick publishes a snapshot whose
  \<open>networkDown\<close> (\<open>networkUp\<close>) is computed in floating point arithmetic: the values of
  \<open>rx_sec\<close> (\<open>tx_sec\<close>), a missing one counted as 0, are added from left to right, the sum
  is multiplied by 8 and divided by 1000000, each operation rounded to the nearest
  floating point number, and this quotient is rounded to one decimal: the published value
  is a multiple of one tenth at most one twentieth away from the floating point quotient.
  The values 500000 and 250000 of \<open>rx_sec\<close> give 6.
\<close>

theorem network_totals_binary64:
  "tick (Fulfilled cl) (Fulfilled ct) (Fulfilled m) (Fulfilled fs) (Fulfilled ns) (Fulfilled ps) up
     = [IoEmit (EvStats (stats cl ct m fs ns up)), IoEmit (EvProcesses (topProcesses ps))]
   \<and> networkDown (stats cl ct m fs ns up)
       = toFixed1 (fl (fl (foldl (\<lambda>acc v. fl (acc + v)) 0 (map (\<lambda>i. case rx_sec i of None \<Rightarrow> 0 | Some v \<Rightarrow> v) ns) * 8) / 1000000))
   \<and> networkUp (stats cl ct m fs ns up)
       = toFixed1 (fl (fl (foldl (\<lambda>acc v. fl (acc + v)) 0 (map (\<lambda>i. case tx_sec i of None \<Rightarrow> 0 | Some v \<Rightarrow> v) ns) * 8) / 1000000))
   \<and> (\<exists>n. networkDown (stats cl ct m fs ns up) = real_of_int n / 10)
   \<and> \<bar>networkDown (stats cl ct m fs ns up)
        - fl (fl (foldl (\<lambda>acc v. fl (acc + v)) 0 (map (\<lambda>i. case rx_sec i of None \<Rightarrow> 0 | Some v \<Rightarrow> v) ns) * 8) / 1000000)\<bar> \<le> 1 / 20
   \<and> (\<exists>n. networkUp (stats cl ct m fs ns up) = real_of_int n / 10)
   \<and> \<bar>networkUp (stats cl ct m fs ns up)
        - fl (fl (foldl (\<lambda>acc v. fl (acc + v)) 0 (map (\<lambda>i. case tx_sec i of None \<Rightarrow> 0 | Some v \<Rightarrow> v) ns) * 8) / 1000000)\<bar> \<le> 1 / 20
   \<and> networkDown (stats cl ct m fs
        [\<lparr>rx_sec = Some 500000, tx_sec = t1\<rparr>, \<lparr>rx_sec = Some 250000, tx_sec = t2\<rparr>] up) = 6"
proof -
  have d: "networkDown (stats cl ct m fs ns up)
       = toFixed1 (fl (fl (foldl (\<lambda>acc v. fl (acc + v)) 0 (map (\<lambda>i. case rx_sec i of None \<Rightarrow> 0 | Some v \<Rightarrow> v) ns) * 8) / 1000000))"
    by (simp add: stats_def netRxSec_fold)
  have u: "networkUp (stats cl ct m fs ns up)
       = toFixed1 (fl (fl (foldl (\<lambda>acc v. fl (acc + v)) 0 (map (\<lambda>i. case tx_sec i of None \<Rightarrow> 0 | Some v \<Rightarrow> v) ns) * 8) / 1000000))"
    by (simp add: stats_def netTxSec_fold)
  have e: "networkDown (stats cl ct m fs
        [\<lparr>rx_sec = Some 500000, tx_sec = t1\<rparr>, \<lparr>rx_sec = Some 250000, tx_sec = t2\<rparr>] up) = 6"
    by (simp add: stats_def netRxSec_def or_zero_def fl_eval toFixed1_def)
  obtain n1 where n1: "toFixed1 (fl (fl (foldl (\<lambda>acc v. fl (acc + v)) 0 (map (\<lambda>i. case rx_sec i of None \<Rightarrow> 0 | Some v \<Rightarrow> v) ns) * 8) / 1000000))
        = real_of_int n1 / 10"
    and a1: "\<bar>toFixed1 (fl (fl (foldl (\<lambda>acc v. fl (acc + v)) 0 (map (\<lambda>i. case rx_sec i of None \<Rightarrow> 0 | Some v \<Rightarrow> v) ns) * 8) / 1000000))
        - fl (fl (foldl (\<lambda>acc v. fl (acc + v)) 0 (map (\<lambda>i. case rx_sec i of None \<Rightarrow> 0 | Some v \<Rightarrow> v) ns) * 8) / 1000000)\<bar> \<le> 1 / 20"
    using toFixed1_nearest by blast
  obtain n2 where n2: "toFixed1 (fl (fl (foldl (\<lambda>acc v. fl (acc + v)) 0 (map (\<lambda>i. case tx_sec i of None \<Rightarrow> 0 | Some v \<Rightarrow> v) ns) * 8) / 1000000))
        = real_of_int n2 / 10"
    and a2: "\<bar>toFixed1 (fl (fl (foldl (\<lambda>acc v. fl (acc + v)) 0 (map (\<lambda>i. case tx_sec i of None \<Rightarrow> 0 | Some v \<Rightarrow> v) ns) * 8) / 1000000))
        - fl (fl (foldl (\<lambda>acc v. fl (acc + v)) 0 (map (\<lambda>i. case tx_sec i of None \<Rightarrow> 0 | Some v \<Rightarrow> v) ns) * 8) / 1000000)\<bar> \<le> 1 / 20"
    using toFixed1_nearest by blast
  have e1: "\<exists>n. networkDown (stats cl ct m fs ns up) = real_of_int n / 10"
    unfolding d using n1 by (rule exI)
  have e2: "\<exists>n. networkUp (stats cl ct m fs ns up) = real_of_int n / 10"
    unfolding u using n2 by (rule exI)
  note t = tick_fulfilled[of cl ct m fs ns ps up]
  from t d u e1 a1[folded d] e2 a2[folded u] e show ?thesis
    by (intro conjI)
qed

theorem network_totals_binary64_witness:
  "networkUp (stats \<lparr>currentLoad = 1\<rparr> \<lparr>main = None\<rparr> \<lparr>mem_active = 1, mem_total = 2\<rparr> []
      [\<lparr>rx_sec = None, tx_sec = Some 125000\<rparr>, \<lparr>rx_sec = Some 40000, tx_sec = None\<rparr>,
       \<lparr>rx_sec = Some 10000, tx_sec = Some 31250\<rparr>] 5) = 13 / 10
   \<and> networkDown (stats \<lparr>currentLoad = 1\<rparr> \<lparr>main = None\<rparr> \<lparr>mem_active = 1, mem_total = 2\<rparr> []
      [\<lparr>rx_sec = None, tx_sec = Some 125000\<rparr>, \<lparr>rx_sec = Some 40000, tx_sec = None\<rparr>,
       \<lparr>rx_sec = Some 10000, tx_sec = Some 31250\<rparr>] 5) = 4 / 10"
  using network_totals_binary64[of "\<lparr>currentLoad = 1\<rparr>" "\<lparr>main = None\<rparr>" "\<lparr>mem_active = 1, mem_total = 2\<rparr>" "[]"
      "[\<lparr>rx_sec = None, tx_sec = Some 125000\<rparr>, \<lparr>rx_sec = Some 40000, tx_sec = None\<rparr>,
       \<lparr>rx_sec = Some 10000, tx_sec = Some 31250\<rparr>]" "\<lparr>proc_list = []\<rparr>" 5 None None]
  by (simp add: fl_eval toFixed1_def)

text \<open>
  Claim C5: when every query succeeds and the temperature result has no \<open>main\<close> value,
  the tick publishes both events, every connected subscriber receives them, and the
  published \<open>cpuTemp\<close> is 0.
\<close>

theorem cpuTemp_absent_zero:
  "main ct = None \<Longrightarrow>
     tick (Fulfilled cl) (Fulfilled ct) (Fulfilled m) (Fulfilled fs) (Fulfilled ns) (Fulfilled ps) up
       = [IoEmit (EvStats (stats cl ct m fs ns up)), IoEmit (EvProcesses (topProcesses ps))]
     \<and> cpuTemp (stats cl ct m fs ns up) = 0
     \<and> (\<forall>s\<in>sockets srv.
          inbox (step srv (Tick (Fulfilled cl, Fulfilled ct, Fulfilled m, Fulfilled fs,
                                 Fulfilled ns, Fulfilled ps, up))) s
            = inbox srv s @ [EvStats (stats cl ct m fs ns up), EvProcesses (topProcesses ps)])"
proof -
  assume h: "main ct = None"
  have c: "cpuTemp (stats cl ct m fs ns up) = 0" by (simp add: stats_def h or_zero_def)
  have i: "\<forall>s\<in>sockets srv.
          inbox (step srv (Tick (Fulfilled cl, Fulfilled ct, Fulfilled m, Fulfilled fs,
                                 Fulfilled ns, Fulfilled ps, up))) s
            = inbox srv s @ [EvStats (stats cl ct m fs ns up), EvProcesses (topProcesses ps)]"
    by (simp add: step_tick_inbox tick_events_fulfilled del: step.simps)
  show ?thesis using c i tick_fulfilled by blast
qed

theorem cpuTemp_absent_zero_witness:
  "main \<lparr>main = None\<rparr> = None
   \<and> cpuTemp (stats \<lparr>currentLoad = 37\<rparr> \<lparr>main = None\<rparr> \<lparr>mem_active = 1, mem_total = 2\<rparr> [] [] 5) = 0
   \<and> length (inbox (step \<lparr>sockets = {''a''}, inbox = (\<lambda>_. []), console = []\<rparr>
        (Tick (Fulfilled \<lparr>currentLoad = 37\<rparr>, Fulfilled \<lparr>main = None\<rparr>,
               Fulfilled \<lparr>mem_active = 1, mem_total = 2\<rparr>, Fulfilled [], Fulfilled [],
               Fulfilled \<lparr>proc_list = []\<rparr>, 5))) ''a'') = 2"
  using cpuTemp_absent_zero[of "\<lparr>main = None\<rparr>" "\<lparr>currentLoad = 37\<rparr>" "\<lparr>mem_active = 1, mem_total = 2\<rparr>"
     "[]" "[]" "\<lparr>proc_list = []\<rparr>" 5 "\<lparr>sockets = {''a''}, inbox = (\<lambda>_. []), console = []\<rparr>"]
  by simp

text \<open>
  Claim C6: when the process query of a tick rejects, the callback only logs the failure:
  no event is published and no inbox changes. The ticks after it run as if the failed
  tick had not happened, so every connected subscriber receives exactly what the later
  ticks publish.
\<close>

theorem processes_rejected_skips_tick:
  "tick a b c d e Rejected up = [ConsoleError ''Error fetching stats:'']
   \<and> tick_events (a, b, c, d, e, Rejected, up) = []
   \<and> inbox (step srv (Tick (a, b, c, d, e, Rejected, up))) = inbox srv
   \<and> sockets (step srv (Tick (a, b, c, d, e, Rejected, up))) = sockets srv
   \<and> console (step srv (Tick (a, b, c, d, e, Rejected, up)))
       = console srv @ [''Error fetching stats:'']
   \<and> inbox (run (step srv (Tick (a, b, c, d, e, Rejected, up))) ins) = inbox (run srv ins)
   \<and> sockets (run (step srv (Tick (a, b, c, d, e, Rejected, up))) ins) = sockets (run srv ins)
   \<and> (\<forall>s\<in>sockets srv.
        inbox (run srv (Tick (a, b, c, d, e, Rejected, up) # map Tick qs)) s
          = inbox srv s @ concat (map tick_events qs))"
proof -
  let ?bad = "Tick (a, b, c, d, e, Rejected, up)"
  have st: "step srv ?bad = srv\<lparr>console := console srv @ [''Error fetching stats:'']\<rparr>"
    by (rule step_tick_rejected) simp
  have 1: "tick a b c d e Rejected up = [ConsoleError ''Error fetching stats:'']"
    by (rule tick_rejected) simp
  have 2: "tick_events (a, b, c, d, e, Rejected, up) = []"
    by (rule tick_events_rejected) simp
  have 3: "inbox (step srv ?bad) = inbox srv" "sockets (step srv ?bad) = sockets srv"
    "console (step srv ?bad) = console srv @ [''Error fetching stats:'']"
    unfolding st by simp_all
  have 4: "inbox (run (step srv ?bad) ins) = inbox (run srv ins)"
    "sockets (run (step srv ?bad) ins) = sockets (run srv ins)"
    using run_console_irrelevant[OF 3(2) 3(1), of ins] by simp_all
  have 5: "\<forall>s\<in>sockets srv. inbox (run srv (?bad # map Tick qs)) s
          = inbox srv s @ concat (map tick_events qs)"
  proof
    fix s assume s: "s \<in> sockets srv"
    have "run srv (?bad # map Tick qs) = run (step srv ?bad) (map Tick qs)"
      by (simp add: run_def del: step.simps)
    moreover have "s \<in> sockets (step srv ?bad)" using s 3(2) by simp
    ultimately show "inbox (run srv (?bad # map Tick qs)) s = inbox srv s @ concat (map tick_events qs)"
      using run_ticks_inbox[of s "step srv ?bad" qs] 3(1) by simp
  qed
  from 1 2 3 4 5 show ?thesis by (intro conjI)
qed

theorem processes_rejected_skips_tick_witness:
  "inbox (run \<lparr>sockets = {''a''}, inbox = (\<lambda>_. []), console = []\<rparr>
      [Tick (Fulfilled \<lparr>currentLoad = 5\<rparr>, Fulfilled \<lparr>main = Some 50\<rparr>,
             Fulfilled \<lparr>mem_active = 1, mem_total = 2\<rparr>, Fulfilled [], Fulfilled [], Rejected, 10),
       Tick (Fulfilled \<lparr>currentLoad = 5\<rparr>, Fulfilled \<lparr>main = Some 50\<rparr>,
             Fulfilled \<lparr>mem_active = 1, mem_total = 2\<rparr>, Fulfilled [], Fulfilled [],
             Fulfilled \<lparr>proc_list = []\<rparr>, 12)]) ''a''
    = [EvStats \<lparr>cpuUsage = 5, cpuTemp = 50, memoryUsed = 0, memoryTotal = 0, storageUsed = 0,
         storageTotal = 0, networkUp = 0, networkDown = 0, uptime = 12\<rparr>, EvProcesses []]"
  using processes_rejected_skips_tick[of "Fulfilled \<lparr>currentLoad = 5\<rparr>" "Fulfilled \<lparr>main = Some 50\<rparr>"
      "Fulfilled \<lparr>mem_active = 1, mem_total = 2\<rparr>" "Fulfilled []" "Fulfilled []" 10
      "\<lparr>sockets = {''a''}, inbox = (\<lambda>_. []), console = []\<rparr>" "[]"
      "[(Fulfilled \<lparr>currentLoad = 5\<rparr>, Fulfilled \<lparr>main = Some 50\<rparr>,
             Fulfilled \<lparr>mem_active = 1, mem_total = 2\<rparr>, Fulfilled [], Fulfilled [],
             Fulfilled \<lparr>proc_list = []\<rparr>, 12)]"]
  by (simp add: tick_events_fulfilled stats_def topProcesses_def top5_def array_sort_def
        toFixed1_def or_zero_def mainDrive_def netRxSec_def netTxSec_def fl_zero)

text \<open>
  Claim C7: when every query succeeds, the active memory does not exceed the total memory
  and no volume uses more than its size, the published snapshot has
  \<open>memoryUsed \<le> memoryTotal\<close> and \<open>storageUsed \<le> storageTotal\<close>.
\<close>

theorem used_le_total:
  "mem_active m \<le> mem_total m \<Longrightarrow> \<forall>v\<in>set fs. fs_used v \<le> fs_size v \<Longrightarrow>
     tick (Fulfilled cl) (Fulfilled ct) (Fulfilled m) (Fulfilled fs) (Fulfilled ns) (Fulfilled ps) up
       = [IoEmit (EvStats (stats cl ct m fs ns up)), IoEmit (EvProcesses (topProcesses ps))]
     \<and> memoryUsed (stats cl ct m fs ns up) \<le> memoryTotal (stats cl ct m fs ns up)
     \<and> storageUsed (stats cl ct m fs ns up) \<le> storageTotal (stats cl ct m fs ns up)"
proof -
  assume hm: "mem_active m \<le> mem_total m" and hf: "\<forall>v\<in>set fs. fs_used v \<le> fs_size v"
  have "mem_active m / 1024 ^ 3 \<le> mem_total m / 1024 ^ 3"
    using hm by (simp add: divide_right_mono)
  then have 1: "memoryUsed (stats cl ct m fs ns up) \<le> memoryTotal (stats cl ct m fs ns up)"
    by (simp add: stats_def toFixed1_mono)
  have d: "fs_used (mainDrive fs) \<le> fs_size (mainDrive fs)"
  proof (cases "fs = []")
    case True
    then show ?thesis by (simp add: mainDrive_def)
  next
    case False
    then show ?thesis using mainDrive_mem hf by blast
  qed
  then have "fs_used (mainDrive fs) / 1024 ^ 3 \<le> fs_size (mainDrive fs) / 1024 ^ 3"
    by (simp add: divide_right_mono)
  then have 2: "storageUsed (stats cl ct m fs ns up) \<le> storageTotal (stats cl ct m fs ns up)"
    by (simp add: stats_def toFixed1_mono)
  show ?thesis using 1 2 tick_fulfilled by blast
qed

theorem used_le_total_witness:
  "mem_active \<lparr>mem_active = 3221225472, mem_total = 8589934592\<rparr>
     \<le> mem_total \<lparr>mem_active = 3221225472, mem_total = 8589934592\<rparr>
   \<and> fs_used \<lparr>fs_used = 1073741824, fs_size = 2147483648\<rparr>
     \<le> fs_size \<lparr>fs_used = 1073741824, fs_size = 2147483648\<rparr>
   \<and> fs_used \<lparr>fs_used = 53687091200, fs_size = 107374182400\<rparr>
     \<le> fs_size \<lparr>fs_used = 53687091200, fs_size = 107374182400\<rparr>
   \<and> memoryUsed (stats \<lparr>currentLoad = 1\<rparr> \<lparr>main = None\<rparr>
        \<lparr>mem_active = 3221225472, mem_total = 8589934592\<rparr>
        [\<lparr>fs_used = 1073741824, fs_size = 2147483648\<rparr>,
         \<lparr>fs_used = 53687091200, fs_size = 107374182400\<rparr>] [] 5)
     \<le> memoryTotal (stats \<lparr>currentLoad = 1\<rparr> \<lparr>main = None\<rparr>
        \<lparr>mem_active = 3221225472, mem_total = 8589934592\<rparr>
        [\<lparr>fs_used = 1073741824, fs_size = 2147483648\<rparr>,
         \<lparr>fs_used = 53687091200, fs_size = 107374182400\<rparr>] [] 5)
   \<and> storageUsed (stats \<lparr>currentLoad = 1\<rparr> \<lparr>main = None\<rparr>
        \<lparr>mem_active = 3221225472, mem_total = 8589934592\<rparr>
        [\<lparr>fs_used = 1073741824, fs_size = 2147483648\<rparr>,
         \<lparr>fs_used = 53687091200, fs_size = 107374182400\<rparr>] [] 5)
     \<le> storageTotal (stats \<lparr>currentLoad = 1\<rparr> \<lparr>main = None\<rparr>
        \<lparr>mem_active = 3221225472, mem_total = 8589934592\<rparr>
        [\<lparr>fs_used = 1073741824, fs_size = 2147483648\<rparr>,
         \<lparr>fs_used = 53687091200, fs_size = 107374182400\<rparr>] [] 5)"
  using used_le_total[of "\<lparr>mem_active = 3221225472, mem_total = 8589934592\<rparr>"
      "[\<lparr>fs_used = 1073741824, fs_size = 2147483648\<rparr>,
        \<lparr>fs_used = 53687091200, fs_size = 107374182400\<rparr>]"
      "\<lparr>currentLoad = 1\<rparr>" "\<lparr>main = None\<rparr>" "[]" "\<lparr>proc_list = []\<rparr>" 5]
  by simp

text \<open>
  Claim C8: when both identity queries succeed, the handler sends one \<open>vm-info\<close> event, to
  the new socket only. Its status is \<open>Online\<close>, its region is \<open>Local\<close>, its \<open>os\<close> is the
  distribution and the release joined by one space, and the kernel is passed through.
  Its \<open>ip\<close> is the \<open>ip4\<close> of the first interface of the list that is not internal and has
  a non-empty \<open>ip4\<close>, and \<open>127.0.0.1\<close> when the list has no such interface.
\<close>

theorem vm_info_payload:
  "connection sock (Fulfilled oi) (Fulfilled (IfaceArray ifs))
     = [ConsoleLog (''Frontend connected: '' @ sock),
        SocketEmit sock (EvVmInfo (vm_info oi (IfaceArray ifs)))]
   \<and> inbox (step srv (Connect sock (Fulfilled oi) (Fulfilled (IfaceArray ifs))))
       = (inbox srv)(sock := inbox srv sock @ [EvVmInfo (vm_info oi (IfaceArray ifs))])
   \<and> vm_status (vm_info oi (IfaceArray ifs)) = ''Online''
   \<and> region (vm_info oi (IfaceArray ifs)) = ''Local''
   \<and> os (vm_info oi (IfaceArray ifs)) = os_distro oi @ '' '' @ os_release oi
   \<and> kernel (vm_info oi (IfaceArray ifs)) = os_kernel oi
   \<and> ((\<forall>i\<in>set ifs. internal i \<or> ip4 i = []) \<longrightarrow> ip (vm_info oi (IfaceArray ifs)) = ''127.0.0.1'')
   \<and> (\<forall>pre i post. ifs = pre @ i # post \<and> (\<forall>j\<in>set pre. internal j \<or> ip4 j = [])
          \<and> \<not> internal i \<and> ip4 i \<noteq> [] \<longrightarrow> ip (vm_info oi (IfaceArray ifs)) = ip4 i)"
proof -
  have 1: "connection sock (Fulfilled oi) (Fulfilled (IfaceArray ifs))
     = [ConsoleLog (''Frontend connected: '' @ sock),
        SocketEmit sock (EvVmInfo (vm_info oi (IfaceArray ifs)))]"
    by (rule connection_fulfilled)
  have 2: "inbox (step srv (Connect sock (Fulfilled oi) (Fulfilled (IfaceArray ifs))))
       = (inbox srv)(sock := inbox srv sock @ [EvVmInfo (vm_info oi (IfaceArray ifs))])"
    by (simp add: 1)
  have 3: "vm_status (vm_info oi (IfaceArray ifs)) = ''Online''"
    "region (vm_info oi (IfaceArray ifs)) = ''Local''"
    "os (vm_info oi (IfaceArray ifs)) = os_distro oi @ '' '' @ os_release oi"
    "kernel (vm_info oi (IfaceArray ifs)) = os_kernel oi"
    by (simp_all add: vm_info_def)
  have 4: "(\<forall>i\<in>set ifs. internal i \<or> ip4 i = []) \<longrightarrow> ip (vm_info oi (IfaceArray ifs)) = ''127.0.0.1''"
  proof
    assume "\<forall>i\<in>set ifs. internal i \<or> ip4 i = []"
    then have "find (\<lambda>i. \<not> internal i \<and> ip4 i \<noteq> []) ifs = None"
      by (auto simp add: find_None_iff)
    then show "ip (vm_info oi (IfaceArray ifs)) = ''127.0.0.1''"
      by (simp add: vm_info_def mainInterface_def ip_or_loopback_def)
  qed
  have 5: "\<forall>pre i post. ifs = pre @ i # post \<and> (\<forall>j\<in>set pre. internal j \<or> ip4 j = [])
          \<and> \<not> internal i \<and> ip4 i \<noteq> [] \<longrightarrow> ip (vm_info oi (IfaceArray ifs)) = ip4 i"
  proof (intro allI impI)
    fix pre i post
    assume h: "ifs = pre @ i # post \<and> (\<forall>j\<in>set pre. internal j \<or> ip4 j = [])
          \<and> \<not> internal i \<and> ip4 i \<noteq> []"
    then have "find (\<lambda>i. \<not> internal i \<and> ip4 i \<noteq> []) (pre @ i # post) = Some i"
      by (intro find_first) auto
    then show "ip (vm_info oi (IfaceArray ifs)) = ip4 i" using h
      by (simp add: vm_info_def mainInterface_def ip_or_loopback_def)
  qed
  from 1 2 3 4 5 show ?thesis by (intro conjI)
qed

theorem vm_info_payload_witness:
  "ip (vm_info \<lparr>os_hostname = ''host'', os_distro = ''Ubuntu'', os_release = ''22.04'', os_kernel = ''5.15''\<rparr>
        (IfaceArray [\<lparr>internal = True, ip4 = ''127.0.0.1''\<rparr>, \<lparr>internal = False, ip4 = ''''\<rparr>,
                     \<lparr>internal = False, ip4 = ''10.0.0.5''\<rparr>, \<lparr>internal = False, ip4 = ''10.0.0.6''\<rparr>]))
     = ''10.0.0.5''
   \<and> os (vm_info \<lparr>os_hostname = ''host'', os_distro = ''Ubuntu'', os_release = ''22.04'', os_kernel = ''5.15''\<rparr>
        (IfaceArray [\<lparr>internal = True, ip4 = ''127.0.0.1''\<rparr>, \<lparr>internal = False, ip4 = ''''\<rparr>,
                     \<lparr>internal = False, ip4 = ''10.0.0.5''\<rparr>, \<lparr>internal = False, ip4 = ''10.0.0.6''\<rparr>]))
     = ''Ubuntu 22.04''
   \<and> ip (vm_info \<lparr>os_hostname = ''host'', os_distro = ''Ubuntu'', os_release = ''22.04'', os_kernel = ''5.15''\<rparr>
        (IfaceArray [\<lparr>internal = True, ip4 = ''127.0.0.1''\<rparr>, \<lparr>internal = False, ip4 = ''''\<rparr>]))
     = ''127.0.0.1''"
proof -
  let ?oi = "\<lparr>os_hostname = ''host'', os_distro = ''Ubuntu'', os_release = ''22.04'', os_kernel = ''5.15''\<rparr>"
  let ?lo = "\<lparr>internal = True, ip4 = ''127.0.0.1''\<rparr>"
  let ?e0 = "\<lparr>internal = False, ip4 = ''''\<rparr>"
  let ?e1 = "\<lparr>internal = False, ip4 = ''10.0.0.5''\<rparr>"
  let ?e2 = "\<lparr>internal = False, ip4 = ''10.0.0.6''\<rparr>"
  let ?srv = "\<lparr>sockets = {}, inbox = (\<lambda>_. []), console = []\<rparr>"
  note a = vm_info_payload[of "''s''" ?oi "[?lo, ?e0, ?e1, ?e2]" ?srv]
  note b = vm_info_payload[of "''s''" ?oi "[?lo, ?e0]" ?srv]
  have h: "[?lo, ?e0, ?e1, ?e2] = [?lo, ?e0] @ ?e1 # [?e2] \<and> (\<forall>j\<in>set [?lo, ?e0]. internal j \<or> ip4 j = [])
          \<and> \<not> internal ?e1 \<and> ip4 ?e1 \<noteq> []" by simp
  have 1: "ip (vm_info ?oi (IfaceArray [?lo, ?e0, ?e1, ?e2])) = ip4 ?e1"
    using a h by blast
  have 2: "os (vm_info ?oi (IfaceArray [?lo, ?e0, ?e1, ?e2])) = os_distro ?oi @ '' '' @ os_release ?oi"
    using a by blast
  have "\<forall>i\<in>set [?lo, ?e0]. internal i \<or> ip4 i = []" by simp
  then have 3: "ip (vm_info ?oi (IfaceArray [?lo, ?e0])) = ''127.0.0.1''"
    using b by blast
  from 1 2 3 show ?thesis by simp
qed

text \<open>
  Claim C9: when an identity query rejects, the handler only logs the failure: no inbox
  changes, so the new subscriber receives no \<open>vm-info\<close> event. The socket is connected
  all the same, and in the ticks that follow it receives, like every other connected
  subscriber, what those ticks publish: the \<open>stats\<close> and the \<open>processes\<close> event of a tick
  whose queries all succeed.
\<close>

theorem failed_onboarding_keeps_subscription:
  "osq = Rejected \<or> nq = Rejected \<Longrightarrow>
     connection sock osq nq
       = [ConsoleLog (''Frontend connected: '' @ sock), ConsoleError ''Error fetching static info:'']
     \<and> inbox (step srv (Connect sock osq nq)) = inbox srv
     \<and> sockets (step srv (Connect sock osq nq)) = insert sock (sockets srv)
     \<and> (\<forall>s\<in>insert sock (sockets srv).
          inbox (run (step srv (Connect sock osq nq)) (map Tick qs)) s
            = inbox srv s @ concat (map tick_events qs))
     \<and> (\<forall>s\<in>insert sock (sockets srv).
          inbox (step (step srv (Connect sock osq nq))
                   (Tick (Fulfilled cl, Fulfilled ct, Fulfilled m, Fulfilled fs, Fulfilled ns,
                          Fulfilled ps, up))) s
            = inbox srv s @ [EvStats (stats cl ct m fs ns up), EvProcesses (topProcesses ps)])"
proof -
  assume h: "osq = Rejected \<or> nq = Rejected"
  let ?srv' = "step srv (Connect sock osq nq)"
  note 1 = connection_rejected[OF h, of sock]
  have 2: "inbox ?srv' = inbox srv" "sockets ?srv' = insert sock (sockets srv)"
    by (simp_all add: 1)
  have 3: "\<forall>s\<in>insert sock (sockets srv).
          inbox (run ?srv' (map Tick qs)) s = inbox srv s @ concat (map tick_events qs)"
  proof
    fix s assume "s \<in> insert sock (sockets srv)"
    then have "s \<in> sockets ?srv'" using 2(2) by simp
    from run_ticks_inbox[OF this, of qs] show
      "inbox (run ?srv' (map Tick qs)) s = inbox srv s @ concat (map tick_events qs)"
      using 2(1) by simp
  qed
  have 4: "\<forall>s\<in>insert sock (sockets srv).
          inbox (step ?srv' (Tick (Fulfilled cl, Fulfilled ct, Fulfilled m, Fulfilled fs,
                  Fulfilled ns, Fulfilled ps, up))) s
            = inbox srv s @ [EvStats (stats cl ct m fs ns up), EvProcesses (topProcesses ps)]"
  proof
    fix s assume "s \<in> insert sock (sockets srv)"
    then have "s \<in> sockets ?srv'" using 2(2) by simp
    then show "inbox (step ?srv' (Tick (Fulfilled cl, Fulfilled ct, Fulfilled m, Fulfilled fs,
                  Fulfilled ns, Fulfilled ps, up))) s
            = inbox srv s @ [EvStats (stats cl ct m fs ns up), EvProcesses (topProcesses ps)]"
      using 2(1) by (simp add: step_tick_inbox tick_events_fulfilled del: step.simps)
  qed
  from 1 2 3 4 show ?thesis by (intro conjI)
qed

theorem failed_onboarding_keeps_subscription_witness:
  "inbox (step (step \<lparr>sockets = {''a''}, inbox = (\<lambda>_. []), console = []\<rparr>
             (Connect ''b'' Rejected (Fulfilled (IfaceArray []))))
        (Tick (Fulfilled \<lparr>currentLoad = 5\<rparr>, Fulfilled \<lparr>main = Some 50\<rparr>,
             Fulfilled \<lparr>mem_active = 1, mem_total = 2\<rparr>, Fulfilled [], Fulfilled [],
             Fulfilled \<lparr>proc_list = []\<rparr>, 12))) ''b''
    = [EvStats \<lparr>cpuUsage = 5, cpuTemp = 50, memoryUsed = 0, memoryTotal = 0, storageUsed = 0,
         storageTotal = 0, networkUp = 0, networkDown = 0, uptime = 12\<rparr>, EvProcesses []]
   \<and> inbox (step (step \<lparr>sockets = {''a''}, inbox = (\<lambda>_. []), console = []\<rparr>
             (Connect ''b'' Rejected (Fulfilled (IfaceArray []))))
        (Tick (Fulfilled \<lparr>currentLoad = 5\<rparr>, Fulfilled \<lparr>main = Some 50\<rparr>,
             Fulfilled \<lparr>mem_active = 1, mem_total = 2\<rparr>, Fulfilled [], Fulfilled [],
             Fulfilled \<lparr>proc_list = []\<rparr>, 12))) ''a''
    = [EvStats \<lparr>cpuUsage = 5, cpuTemp = 50, memoryUsed = 0, memoryTotal = 0, storageUsed = 0,
         storageTotal = 0, networkUp = 0, networkDown = 0, uptime = 12\<rparr>, EvProcesses []]"
  using failed_onboarding_keeps_subscription[of Rejected "Fulfilled (IfaceArray [])" "''b''"
      "\<lparr>sockets = {''a''}, inbox = (\<lambda>_. []), console = []\<rparr>" "[]"
      "\<lparr>currentLoad = 5\<rparr>" "\<lparr>main = Some 50\<rparr>" "\<lparr>mem_active = 1, mem_total = 2\<rparr>" "[]" "[]"
      "\<lparr>proc_list = []\<rparr>" 12]
  by (simp add: connection_rejected tick_fulfilled stats_def topProcesses_def top5_def
        array_sort_def toFixed1_def or_zero_def mainDrive_def netRxSec_def netTxSec_def fl_zero)

text \<open>
  Claim C10: a tick publishes either nothing or the \<open>stats\<close> event followed by the
  \<open>processes\<close> event, and a subscriber receives either nothing or both, in this order.
\<close>

theorem stats_processes_both_or_neither:
  "(tick a b c d e f up = [ConsoleError ''Error fetching stats:'']
      \<or> (\<exists>st pr. tick a b c d e f up = [IoEmit (EvStats st), IoEmit (EvProcesses pr)]))
   \<and> (tick_events (a, b, c, d, e, f, up) = []
      \<or> (\<exists>st pr. tick_events (a, b, c, d, e, f, up) = [EvStats st, EvProcesses pr]))
   \<and> (inbox (step srv (Tick (a, b, c, d, e, f, up))) s = inbox srv s
      \<or> (\<exists>st pr. inbox (step srv (Tick (a, b, c, d, e, f, up))) s
                    = inbox srv s @ [EvStats st, EvProcesses pr]))"
proof (cases "a = Rejected \<or> b = Rejected \<or> c = Rejected \<or> d = Rejected \<or> e = Rejected \<or> f = Rejected")
  case True
  have "inbox (step srv (Tick (a, b, c, d, e, f, up))) s = inbox srv s"
    unfolding step_tick_rejected[OF True] by simp
  then show ?thesis using tick_rejected[OF True] tick_events_rejected[OF True] by blast
next
  case False
  then obtain cl ct m fs ns ps where q: "a = Fulfilled cl" "b = Fulfilled ct" "c = Fulfilled m"
    "d = Fulfilled fs" "e = Fulfilled ns" "f = Fulfilled ps"
    by (metis settled.exhaust)
  have 1: "\<exists>st pr. tick a b c d e f up = [IoEmit (EvStats st), IoEmit (EvProcesses pr)]"
    unfolding q tick_fulfilled by blast
  have 2: "\<exists>st pr. tick_events (a, b, c, d, e, f, up) = [EvStats st, EvProcesses pr]"
    unfolding q tick_events_fulfilled by blast
  have 3: "inbox (step srv (Tick (a, b, c, d, e, f, up))) s = inbox srv s
      \<or> (\<exists>st pr. inbox (step srv (Tick (a, b, c, d, e, f, up))) s
                    = inbox srv s @ [EvStats st, EvProcesses pr])"
    unfolding step_tick_inbox q tick_events_fulfilled by simp
  from 1 2 3 show ?thesis by blast
qed

theorem stats_processes_both_or_neither_witness:
  "tick_events (Fulfilled \<lparr>currentLoad = 5\<rparr>, Fulfilled \<lparr>main = Some 50\<rparr>, Rejected, Fulfilled [],
       Fulfilled [], Fulfilled \<lparr>proc_list = []\<rparr>, 12) = []
   \<or> (\<exists>st pr. tick_events (Fulfilled \<lparr>currentLoad = 5\<rparr>, Fulfilled \<lparr>main = Some 50\<rparr>, Rejected,
       Fulfilled [], Fulfilled [], Fulfilled \<lparr>proc_list = []\<rparr>, 12) = [EvStats st, EvProcesses pr])"
  using stats_processes_both_or_neither[of "Fulfilled \<lparr>currentLoad = 5\<rparr>" "Fulfilled \<lparr>main = Some 50\<rparr>"
     Rejected "Fulfilled []" "Fulfilled []" "Fulfilled \<lparr>proc_list = []\<rparr>" 12]
  by blast

end
